theory Spec2Isabelle
  imports Main "HOL-Library.Word" "HOL-Library.Sublist"
begin

section \<open>JavaScript strings\<close>

text \<open>
  A JavaScript string is a sequence of UTF-16 code units; \<open>length\<close>, \<open>slice\<close>,
  \<open>includes\<close> and \<open>trim\<close> all work on code units. Every Hebrew letter of the
  program's literals lies in the basic plane and is one code unit.
\<close>

type_synonym jsstring = "16 word list"

definition ascii :: "string \<Rightarrow> jsstring" where
  "ascii s = map of_char s"

text \<open>\<open>s.includes(sub)\<close>: \<open>sub\<close> occurs in \<open>s\<close> as a contiguous run.\<close>

fun str_includes :: "jsstring \<Rightarrow> jsstring \<Rightarrow> bool" where
  "str_includes [] sub = (sub = [])"
| "str_includes (c # cs) sub = (prefix sub (c # cs) \<or> str_includes cs sub)"

text \<open>The code units that \<open>trim\<close> strips: ECMAScript WhiteSpace and LineTerminator.\<close>

definition isWhiteSpace :: "16 word \<Rightarrow> bool" where
  "isWhiteSpace c =
     (c \<in> set [0x9, 0xA, 0xB, 0xC, 0xD, 0x20, 0xA0, 0x1680, 0x2028, 0x2029,
                0x202F, 0x205F, 0x3000, 0xFEFF]
      \<or> (0x2000 \<le> c \<and> c \<le> 0x200A))"

definition trim :: "jsstring \<Rightarrow> jsstring" where
  "trim s = rev (dropWhile isWhiteSpace (rev (dropWhile isWhiteSpace s)))"


text \<open>\<open>s.slice(-n)\<close>: the last \<open>n\<close> code units, the whole string when it is shorter.\<close>

definition slice_last :: "nat \<Rightarrow> jsstring \<Rightarrow> jsstring" where
  "slice_last n s = drop (length s - n) s"


text \<open>A non-negative integer inside a template literal: its decimal digits.\<close>

fun numberToString :: "nat \<Rightarrow> jsstring" where
  "numberToString n =
     (if n < 10 then [of_nat (48 + n)]
      else numberToString (n div 10) @ [of_nat (48 + n mod 10)])"

declare numberToString.simps [simp del]

text \<open>
  \<open>toLowerCase\<close> is the runtime's full Unicode lowering and is a parameter of
  everything that calls it. On strings made of ASCII and Hebrew code units it is the
  following function, which the concrete evaluations use.
\<close>

definition asciiLower :: "jsstring \<Rightarrow> jsstring" where
  "asciiLower s = map (\<lambda>c. if 0x41 \<le> c \<and> c \<le> 0x5A then c + 0x20 else c) s"


section \<open>Response validation\<close>

definition failureIndicators :: "jsstring list" where
  "failureIndicators =
     [ascii ''I'm unable to provide'',
      ascii ''I cannot provide'',
      ascii ''unable to'',
      [1500, 1488, 32, 1504, 1497, 1514, 1503, 32, 1500, 1514, 1512, 1490, 1501],
      [1500, 1488, 32, 1504, 1497, 1514, 1503, 32, 1492, 1497, 1492],
      [1513, 1490, 1497, 1488, 1492, 32, 1489, 1506, 1497, 1489, 1493, 1491],
      ascii ''error'',
      ascii ''failed'']"

text \<open>
  \<open>isValidTranslation\<close>: the two length checks on the trimmed fields, then the loop
  over the indicators, which returns false at the first one found in either field.
\<close>

definition isValidTranslation :: "(jsstring \<Rightarrow> jsstring) \<Rightarrow> jsstring \<Rightarrow> jsstring \<Rightarrow> bool" where
  "isValidTranslation toLowerCase translation summary =
     (if translation = [] \<or> length (trim translation) < 10 then False
      else if summary = [] \<or> length (trim summary) < 10 then False
      else
        (let lowerTranslation = toLowerCase translation;
             lowerSummary = toLowerCase summary
         in \<not> list_ex (\<lambda>indicator.
                  str_includes lowerTranslation (toLowerCase indicator)
                  \<or> str_includes lowerSummary (toLowerCase indicator)) failureIndicators))"

text \<open>
  The validation rule in the words of the specification. Its failure markers are
  "unable to", "cannot", the Hebrew refusal phrases, "error" and "failed"; a field is
  invalid when it is empty or shorter than 10 characters, or when its lowered text
  contains a marker.
\<close>

definition claimMarkers :: "jsstring list" where
  "claimMarkers =
     [ascii ''unable to'',
      ascii ''cannot'',
      [1500, 1488, 32, 1504, 1497, 1514, 1503, 32, 1500, 1514, 1512, 1490, 1501],
      [1500, 1488, 32, 1504, 1497, 1514, 1503, 32, 1492, 1497, 1492],
      [1513, 1490, 1497, 1488, 1492, 32, 1489, 1506, 1497, 1489, 1493, 1491],
      ascii ''error'',
      ascii ''failed'']"

definition spec_field_invalid :: "(jsstring \<Rightarrow> jsstring) \<Rightarrow> jsstring \<Rightarrow> bool" where
  "spec_field_invalid toLowerCase field =
     (field = [] \<or> length field < 10
      \<or> list_ex (\<lambda>marker. str_includes (toLowerCase field) marker) claimMarkers)"

text \<open>The same rule with the length taken after trimming.\<close>

definition field_invalid_trimmed :: "(jsstring \<Rightarrow> jsstring) \<Rightarrow> jsstring \<Rightarrow> bool" where
  "field_invalid_trimmed toLowerCase field =
     (field = [] \<or> length (trim field) < 10
      \<or> list_ex (\<lambda>marker. str_includes (toLowerCase field) marker) claimMarkers)"

text \<open>The trimmed rule without the marker "cannot".\<close>

definition field_invalid_besides_cannot :: "(jsstring \<Rightarrow> jsstring) \<Rightarrow> jsstring \<Rightarrow> bool" where
  "field_invalid_besides_cannot toLowerCase field =
     (field = [] \<or> length (trim field) < 10
      \<or> list_ex (\<lambda>marker. str_includes (toLowerCase field) marker)
           (remove1 (ascii ''cannot'') claimMarkers))"

text \<open>
  The rule the code applies: the length after trimming, and the lowered forms of its own
  eight indicators.
\<close>

definition field_invalid :: "(jsstring \<Rightarrow> jsstring) \<Rightarrow> jsstring \<Rightarrow> bool" where
  "field_invalid toLowerCase field =
     (field = [] \<or> length (trim field) < 10
      \<or> list_ex (\<lambda>marker. str_includes (toLowerCase field) (toLowerCase marker))
           failureIndicators)"


section \<open>Page results\<close>

datatype page_status = OK | FAILED | RETRY

text \<open>
  \<open>interface TranslationResult\<close>. The fields declared optional (\<open>chapterTitle?\<close>,
  \<open>sectionTitle?\<close>, \<open>retryCount?\<close>) are options, \<open>None\<close> standing for \<open>undefined\<close>.
\<close>

record TranslationResult =
  pageNumber :: nat
  translation :: jsstring
  summary :: jsstring
  articleTitle :: jsstring
  chapterTitle :: "jsstring option"
  sectionTitle :: "jsstring option"
  status :: page_status
  retryCount :: "nat option"

text \<open>\<open>x || ''\<close> on an optional string; \<open>x\<close> is truthy iff the result is non-empty.\<close>

definition orEmpty :: "jsstring option \<Rightarrow> jsstring" where
  "orEmpty x = (case x of None \<Rightarrow> [] | Some s \<Rightarrow> s)"

text \<open>\<open>xs[j]\<close>: \<open>undefined\<close> outside the array.\<close>

definition lookup :: "'a list \<Rightarrow> nat \<Rightarrow> 'a option" where
  "lookup xs j = (if j < length xs then Some (xs ! j) else None)"

datatype error = TypeError | HandlerFailure


section \<open>Processing one page\<close>

text \<open>The object that \<open>JSON.parse\<close> yields, with the fields the code declares.\<close>

record ParsedResponse =
  r_translation :: jsstring
  r_summary :: jsstring
  r_articleTitle :: jsstring
  r_chapterTitle :: "jsstring option"
  r_sectionTitle :: "jsstring option"

text \<open>
  What the outside world does to one attempt: reading the image file fails, the request
  fails, the response has no content, the content holds no JSON that parses, or an object
  is parsed. \<open>HandlerError\<close> is an attempt that raises and whose handler (its warning
  and its delay) raises in turn, the one way an exception leaves the retry loop.
\<close>

datatype attempt_outcome =
    ReadFileError
  | RequestError
  | NoContent
  | InvalidJson
  | Parsed ParsedResponse
  | HandlerError

text \<open>
  The client: the outcome of attempt \<open>k\<close> of the request built from an image path, a page
  number, the previous context and the chapter context.
\<close>

type_synonym client = "jsstring \<Rightarrow> nat \<Rightarrow> jsstring \<Rightarrow> jsstring \<Rightarrow> nat \<Rightarrow> attempt_outcome"

text \<open>What a run of \<open>processPage\<close> does, in order: attempts and delays (milliseconds).\<close>

datatype event = Attempt nat | Delay nat

text \<open>
  The body of the inner \<open>try\<close>: \<open>None\<close> when it throws (every outcome but a parsed
  object that passes validation), else the object returned.
\<close>

definition attemptPage ::
  "(jsstring \<Rightarrow> jsstring) \<Rightarrow> attempt_outcome \<Rightarrow> nat \<Rightarrow> nat \<Rightarrow> TranslationResult option" where
  "attemptPage toLowerCase outcome pageNo attemptNo =
     (case outcome of
        Parsed parsedResponse \<Rightarrow>
          if \<not> isValidTranslation toLowerCase (r_translation parsedResponse) (r_summary parsedResponse)
          then None
          else Some \<lparr> pageNumber = pageNo,
                      translation = r_translation parsedResponse,
                      summary = r_summary parsedResponse,
                      articleTitle = r_articleTitle parsedResponse,
                      chapterTitle = Some (orEmpty (r_chapterTitle parsedResponse)),
                      sectionTitle = Some (orEmpty (r_sectionTitle parsedResponse)),
                      status = OK,
                      retryCount = Some attemptNo \<rparr>
      | _ \<Rightarrow> None)"

text \<open>The result returned once all retries are exhausted.\<close>

definition exhaustedResult :: "nat \<Rightarrow> nat \<Rightarrow> TranslationResult" where
  "exhaustedResult pageNo maxRetries =
     \<lparr> pageNumber = pageNo,
       translation =
         [1513, 1490, 1497, 1488, 1492, 32, 1489, 1506, 1497, 1489, 1493, 1491, 32, 1491, 1507, 32]
         @ numberToString pageNo @ ascii '' - '' @ numberToString (maxRetries + 1)
         @ [32, 1504, 1497, 1505, 1497, 1493, 1504, 1493, 1514, 32, 1504, 1499, 1513, 1500, 1493],
       summary = ascii ''FAILED - '' @ numberToString (maxRetries + 1)
                 @ ascii '' attempts - manual review needed'',
       articleTitle = [1513, 1490, 1497, 1488, 1492],
       chapterTitle = Some [],
       sectionTitle = Some [],
       status = FAILED,
       retryCount = Some (maxRetries + 1) \<rparr>"

text \<open>The result of the outer \<open>catch\<close>.\<close>

definition criticalResult :: "nat \<Rightarrow> TranslationResult" where
  "criticalResult pageNo =
     \<lparr> pageNumber = pageNo,
       translation =
         [1513, 1490, 1497, 1488, 1492, 32, 1511, 1512, 1497, 1496, 1497, 1514, 32,
          1489, 1506, 1497, 1489, 1493, 1491, 32, 1491, 1507, 32]
         @ numberToString pageNo,
       summary = ascii ''FAILED - Critical error'',
       articleTitle = [1513, 1490, 1497, 1488, 1492],
       chapterTitle = Some [],
       sectionTitle = Some [],
       status = FAILED,
       retryCount = Some 0 \<rparr>"

text \<open>
  The \<open>while (retryCount <= maxRetries)\<close> loop. \<open>io k\<close> is the outcome of the attempt
  made with \<open>retryCount = k\<close>. A failed attempt increments \<open>retryCount\<close> and, when
  another attempt follows, warns and waits three seconds. \<open>Inl\<close> is an exception that
  leaves the loop.
\<close>

function retryLoop ::
  "(jsstring \<Rightarrow> jsstring) \<Rightarrow> (nat \<Rightarrow> attempt_outcome) \<Rightarrow> nat \<Rightarrow> nat \<Rightarrow> nat \<Rightarrow> event list
     \<Rightarrow> (error + TranslationResult) \<times> event list" where
  "retryLoop toLowerCase io pageNo maxRetries attemptNo tr =
     (if attemptNo \<le> maxRetries then
        (case attemptPage toLowerCase (io attemptNo) pageNo attemptNo of
           Some result \<Rightarrow> (Inr result, tr @ [Attempt attemptNo])
         | None \<Rightarrow>
             (if attemptNo + 1 \<le> maxRetries then
                (if io attemptNo = HandlerError
                 then (Inl HandlerFailure, tr @ [Attempt attemptNo])
                 else retryLoop toLowerCase io pageNo maxRetries (attemptNo + 1)
                        (tr @ [Attempt attemptNo, Delay 3000]))
              else retryLoop toLowerCase io pageNo maxRetries (attemptNo + 1)
                     (tr @ [Attempt attemptNo])))
      else (Inr (exhaustedResult pageNo maxRetries), tr))"
  by pat_completeness auto
termination
  by (relation "measure (\<lambda>(toLowerCase, io, pageNo, maxRetries, attemptNo, tr).
                   Suc maxRetries - attemptNo)") auto

declare retryLoop.simps [simp del]

text \<open>
  \<open>processPage\<close>: the retry loop from \<open>retryCount = 0\<close>, inside the outer
  \<open>try\<close>/\<open>catch\<close>. It returns the result and the events of the run.
\<close>

definition processPage ::
  "(jsstring \<Rightarrow> jsstring) \<Rightarrow> client \<Rightarrow> jsstring \<Rightarrow> nat \<Rightarrow> jsstring \<Rightarrow> jsstring \<Rightarrow> nat
     \<Rightarrow> TranslationResult \<times> event list" where
  "processPage toLowerCase cl imagePath pageNo previousContext chapterContext maxRetries =
     (case retryLoop toLowerCase (cl imagePath pageNo previousContext chapterContext)
             pageNo maxRetries 0 [] of
        (Inr result, tr) \<Rightarrow> (result, tr)
      | (Inl err, tr) \<Rightarrow> (criticalResult pageNo, tr))"


section \<open>The page sequencer\<close>

text \<open>
  The backward scan \<open>for (j = i - 1; j >= 0; j--)\<close> of \<open>main\<close>; the second argument is
  \<open>j + 1\<close>, the third the \<open>chapterContext\<close> so far. Reading a title of an entry that is
  not there is a TypeError.
\<close>

fun chapterScan :: "TranslationResult list \<Rightarrow> nat \<Rightarrow> jsstring \<Rightarrow> error + jsstring" where
  "chapterScan rs 0 chapterContext = Inr chapterContext"
| "chapterScan rs (Suc j) chapterContext =
     (case lookup rs j of
        None \<Rightarrow> Inl TypeError
      | Some r \<Rightarrow>
          (let prevChapter = orEmpty (chapterTitle r);
               prevSection = orEmpty (sectionTitle r)
           in if prevChapter \<noteq> [] \<and> chapterContext = [] then
                Inr (prevChapter @ (if prevSection \<noteq> [] then ascii '' > '' @ prevSection else []))
              else if prevSection \<noteq> [] \<and> \<not> str_includes chapterContext (ascii ''>'') then
                chapterScan rs j prevSection
              else chapterScan rs j chapterContext))"

text \<open>
  The two contexts of page index \<open>i\<close>: both stay empty unless \<open>i > 0\<close> and the entry
  before is OK; only then is the scan run.
\<close>

definition pageContexts :: "TranslationResult list \<Rightarrow> nat \<Rightarrow> error + (jsstring \<times> jsstring)" where
  "pageContexts rs i =
     (if 0 < i \<and> (case lookup rs (i - 1) of None \<Rightarrow> False | Some r \<Rightarrow> status r = OK) then
        (case lookup rs (i - 1) of
           None \<Rightarrow> Inl TypeError
         | Some r \<Rightarrow>
             (case chapterScan rs i [] of
                Inl err \<Rightarrow> Inl err
              | Inr chapterContext \<Rightarrow> Inr (slice_last 200 (translation r), chapterContext)))
      else Inr ([], []))"

text \<open>The entry that the \<open>catch\<close> of the page loop pushes.\<close>

definition pageErrorResult :: "nat \<Rightarrow> TranslationResult" where
  "pageErrorResult pageNo =
     \<lparr> pageNumber = pageNo,
       translation =
         [91, 1513, 1490, 1497, 1488, 1492, 32, 1489, 1506, 1502, 1493, 1491, 32]
         @ numberToString pageNo @ ascii '']'',
       summary = ascii ''FAILED'',
       articleTitle = [1513, 1490, 1497, 1488, 1492],
       chapterTitle = Some [],
       sectionTitle = Some [],
       status = FAILED,
       retryCount = None \<rparr>"

text \<open>
  The state of the page loop: the results so far, and the arguments (page number,
  previous context, chapter context) of every call of \<open>processPage\<close> made.
\<close>

record sequencer_state =
  results :: "TranslationResult list"
  calls :: "(nat \<times> jsstring \<times> jsstring) list"

definition translateStep ::
  "(jsstring \<Rightarrow> jsstring) \<Rightarrow> client \<Rightarrow> jsstring \<Rightarrow> nat \<Rightarrow> sequencer_state \<Rightarrow> sequencer_state" where
  "translateStep toLowerCase cl imagePath i st =
     (let pageNo = i + 1 in
      case pageContexts (results st) i of
        Inr (previousContext, chapterContext) \<Rightarrow>
          (let result = fst (processPage toLowerCase cl imagePath pageNo
                               previousContext chapterContext 3)
           in st \<lparr> results := results st @ [result],
                   calls := calls st @ [(pageNo, previousContext, chapterContext)] \<rparr>)
      | Inl err \<Rightarrow> st \<lparr> results := results st @ [pageErrorResult pageNo] \<rparr>)"

text \<open>\<open>for (let i = 0; i < imagePaths.length; i++)\<close>, on the paths from index \<open>i\<close> on.\<close>

fun translateLoop ::
  "(jsstring \<Rightarrow> jsstring) \<Rightarrow> client \<Rightarrow> jsstring list \<Rightarrow> nat \<Rightarrow> sequencer_state \<Rightarrow> sequencer_state" where
  "translateLoop toLowerCase cl [] i st = st"
| "translateLoop toLowerCase cl (imagePath # rest) i st =
     translateLoop toLowerCase cl rest (Suc i) (translateStep toLowerCase cl imagePath i st)"

definition translatePages ::
  "(jsstring \<Rightarrow> jsstring) \<Rightarrow> client \<Rightarrow> jsstring list \<Rightarrow> sequencer_state" where
  "translatePages toLowerCase cl imagePaths =
     translateLoop toLowerCase cl imagePaths 0 \<lparr> results = [], calls = [] \<rparr>"


section \<open>Assembling the translation document\<close>










section \<open>The chunker\<close>

record ChunkData =
  title :: jsstring
  chunkText :: jsstring
  pages :: "nat list"

record chunker_state =
  chunks :: "ChunkData list"
  currentChunk :: ChunkData
  currentChapter :: jsstring
  currentSection :: jsstring

text \<open>The fallback title of content under no chapter and no section.\<close>

definition generalContent :: jsstring where
  "generalContent = [1514, 1493, 1499, 1503, 32, 1499, 1500, 1500, 1497]"

text \<open>One iteration of the loop of \<open>createChunks\<close>.\<close>

definition chunkStep :: "nat \<Rightarrow> chunker_state \<Rightarrow> TranslationResult \<Rightarrow> chunker_state" where
  "chunkStep maxChars st r =
     (if status r \<noteq> OK then st
      else
        (let chapter1 = (if orEmpty (chapterTitle r) \<noteq> [] then orEmpty (chapterTitle r)
                         else currentChapter st);
             section1 = (if orEmpty (chapterTitle r) \<noteq> [] then [] else currentSection st);
             section2 = (if orEmpty (sectionTitle r) \<noteq> [] then orEmpty (sectionTitle r)
                         else section1);
             contentTitle =
               (if chapter1 \<noteq> []
                then (if section2 \<noteq> [] then chapter1 @ ascii '' > '' @ section2 else chapter1)
                else (if section2 \<noteq> [] then section2 else generalContent));
             cur = currentChunk st;
             titleChanged = (title cur \<noteq> [] \<and> title cur \<noteq> contentTitle);
             wouldExceedLimit = (length (chunkText cur) + length (translation r) > maxChars);
             closing = ((titleChanged \<or> wouldExceedLimit) \<and> chunkText cur \<noteq> []);
             chunks1 = (if closing then chunks st @ [cur] else chunks st);
             cur1 = (if closing then \<lparr> title = contentTitle, chunkText = [], pages = [] \<rparr>
                     else cur);
             cur2 = (if title cur1 = [] then cur1 \<lparr> title := contentTitle \<rparr> else cur1);
             cur3 = cur2 \<lparr> chunkText := chunkText cur2 @ translation r @ [10, 10],
                            pages := pages cur2 @ [pageNumber r] \<rparr>
         in \<lparr> chunks = chunks1, currentChunk = cur3,
              currentChapter = chapter1, currentSection = section2 \<rparr>))"

definition chunkerInit :: chunker_state where
  "chunkerInit =
     \<lparr> chunks = [], currentChunk = \<lparr> title = [], chunkText = [], pages = [] \<rparr>,
       currentChapter = [], currentSection = [] \<rparr>"

text \<open>After the loop the open chunk is pushed when it has text.\<close>

definition finishChunks :: "chunker_state \<Rightarrow> ChunkData list" where
  "finishChunks st =
     (if chunkText (currentChunk st) \<noteq> [] then chunks st @ [currentChunk st] else chunks st)"

definition createChunks :: "TranslationResult list \<Rightarrow> nat \<Rightarrow> ChunkData list" where
  "createChunks rs maxChars = finishChunks (foldl (chunkStep maxChars) chunkerInit rs)"


section \<open>Summarizing the chunks\<close>

text \<open>
  What the one request of \<open>summarizeChunk\<close> does: it is rejected (or anything else in
  the \<open>try\<close> throws), or it completes with the content of the first choice, if any.
\<close>

datatype completion = Rejected | Completed "jsstring option"

type_synonym summarizer = "ChunkData \<Rightarrow> nat \<Rightarrow> nat \<Rightarrow> completion"

definition summaryError :: "jsstring \<Rightarrow> jsstring" where
  "summaryError t = [1513, 1490, 1497, 1488, 1492, 32, 1489, 1505, 1497, 1499, 1493, 1501, 32] @ t"

definition summarizeChunk :: "summarizer \<Rightarrow> ChunkData \<Rightarrow> nat \<Rightarrow> nat \<Rightarrow> jsstring" where
  "summarizeChunk cl chunk chunkIndex totalChunks =
     (case cl chunk chunkIndex totalChunks of
        Completed content \<Rightarrow> (case content of None \<Rightarrow> [] | Some c \<Rightarrow> trim c)
      | Rejected \<Rightarrow> summaryError (title chunk))"

text \<open>
  The loop \<open>for (let i = 0; i < chunks.length; i++)\<close> of \<open>main\<close>, on the chunks from
  index \<open>i\<close> on; \<open>totalChunks\<close> is \<open>chunks.length\<close>.
\<close>

fun summarizeLoop :: "summarizer \<Rightarrow> nat \<Rightarrow> ChunkData list \<Rightarrow> nat \<Rightarrow> jsstring list \<Rightarrow> jsstring list" where
  "summarizeLoop cl totalChunks [] i chunkSummaries = chunkSummaries"
| "summarizeLoop cl totalChunks (chunk # rest) i chunkSummaries =
     summarizeLoop cl totalChunks rest (Suc i) (chunkSummaries @ [summarizeChunk cl chunk i totalChunks])"

definition summarizeChunks :: "summarizer \<Rightarrow> ChunkData list \<Rightarrow> jsstring list" where
  "summarizeChunks cl cs = summarizeLoop cl (length cs) cs 0 []"


section \<open>Concrete inputs\<close>

text \<open>A translation that is mostly padding, and a summary that passes validation.\<close>

definition paddedTitle :: jsstring where
  "paddedTitle = ascii ''    Title     ''"

definition headingSummary :: jsstring where
  "headingSummary = ascii ''This page has a heading only.''"

text \<open>A translation that holds the word "cannot" and none of the code's indicators.\<close>

definition cannotText :: jsstring where
  "cannotText = ascii ''We cannot translate this page.''"



text \<open>A client for which every attempt raises and the handler raises in turn.\<close>

definition brokenHandler :: client where
  "brokenHandler imagePath pageNo previousContext chapterContext k = HandlerError"

text \<open>Two chunks, and a summarizer that rejects the first request and answers the second.\<close>

definition twoChunks :: "ChunkData list" where
  "twoChunks =
     [\<lparr> title = ascii ''Chapter 1'', chunkText = ascii ''first page'' @ [10, 10], pages = [1] \<rparr>,
      \<lparr> title = ascii ''Chapter 2'', chunkText = ascii ''second page'' @ [10, 10], pages = [2] \<rparr>]"

definition failsFirst :: summarizer where
  "failsFirst chunk chunkIndex totalChunks =
     (if chunkIndex = 0 then Rejected else Completed (Some (ascii '' A summary. '')))"

text \<open>Two pages without titles whose translations have 5000 and 4998 characters.\<close>

definition plainPage :: "nat \<Rightarrow> nat \<Rightarrow> TranslationResult" where
  "plainPage n len =
     \<lparr> pageNumber = n, translation = replicate len 0x5D0,
       summary = ascii ''A summary of the page.'', articleTitle = ascii ''Title'',
       chapterTitle = Some [], sectionTitle = Some [], status = OK, retryCount = Some 0 \<rparr>"

definition limitPages :: "TranslationResult list" where
  "limitPages = [plainPage 1 5000, plainPage 2 4998]"

text \<open>
  Four page images and a client that answers at the first attempt: page 1 carries the
  chapter title \<open>A\<close>, page 3 the section title \<open>B\<close>, pages 2 and 4 no title.
\<close>

definition examplePaths :: "jsstring list" where
  "examplePaths =
     [ascii ''page_1.png'', ascii ''page_2.png'', ascii ''page_3.png'', ascii ''page_4.png'']"

definition exampleClient :: client where
  "exampleClient imagePath pageNo previousContext chapterContext k =
     Parsed \<lparr> r_translation = ascii ''Text of the page.'',
              r_summary = ascii ''Summary of page.'',
              r_articleTitle = ascii ''Title'',
              r_chapterTitle = (if pageNo = 1 then Some (ascii ''A'') else None),
              r_sectionTitle = (if pageNo = 3 then Some (ascii ''B'') else None) \<rparr>"


text \<open>The result of a page answered at the first attempt by the clients above.\<close>

definition okResult :: "nat \<Rightarrow> jsstring \<Rightarrow> jsstring \<Rightarrow> TranslationResult" where
  "okResult n chapter sec =
     \<lparr> pageNumber = n, translation = ascii ''Text of the page.'',
       summary = ascii ''Summary of page.'', articleTitle = ascii ''Title'',
       chapterTitle = Some chapter, sectionTitle = Some sec,
       status = OK, retryCount = Some 0 \<rparr>"



section \<open>Loop invariants\<close>

text \<open>The page numbers of the OK results, and the pages a chunker state holds.\<close>

definition okPages :: "TranslationResult list \<Rightarrow> nat list" where
  "okPages rs = map pageNumber (filter (\<lambda>r. status r = OK) rs)"

definition allPages :: "chunker_state \<Rightarrow> nat list" where
  "allPages st = concat (map pages (chunks st)) @ pages (currentChunk st)"

text \<open>
  A chunk of two or more pages is at most two characters over the limit: the separator
  appended after the last page is not part of the size check.
\<close>

definition withinLimit :: "nat \<Rightarrow> ChunkData \<Rightarrow> bool" where
  "withinLimit m c = (2 \<le> length (pages c) \<longrightarrow> length (chunkText c) \<le> m + 2)"

definition chunkerInv :: "nat \<Rightarrow> chunker_state \<Rightarrow> bool" where
  "chunkerInv m st =
     ((\<forall>c \<in> set (chunks st). withinLimit m c)
      \<and> withinLimit m (currentChunk st)
      \<and> (chunkText (currentChunk st) = [] \<longleftrightarrow> pages (currentChunk st) = []))"

text \<open>
  After \<open>i\<close> iterations of the page loop there are \<open>i\<close> results and \<open>i\<close> calls;
  result \<open>k\<close> has page number \<open>k + 1\<close> and a non-empty translation when it is OK,
  and call \<open>k\<close> was made for page \<open>k + 1\<close> with the contexts computed from the results.
\<close>

definition sequencerInv :: "sequencer_state \<Rightarrow> nat \<Rightarrow> bool" where
  "sequencerInv st i =
     (length (results st) = i \<and> length (calls st) = i
      \<and> (\<forall>k<i. pageNumber (results st ! k) = Suc k
               \<and> (status (results st ! k) = OK \<longrightarrow> translation (results st ! k) \<noteq> [])
               \<and> fst (calls st ! k) = Suc k
               \<and> pageContexts (results st) k = Inr (snd (calls st ! k))))"


section \<open>Properties of the validation\<close>

text \<open>
  C8, as stated, fails at two inputs, each next to a valid summary. Validation rejects the
  padded translation, a field of 14 characters that holds no failure marker: the claim
  takes the length of the field, the code the length after \<open>trim\<close>. And validation
  accepts a translation of 30 characters that holds the marker "cannot": the code looks
  for "i cannot provide".
\<close>

theorem isValidTranslation_claim_counterexample:
  "\<not> ((\<not> isValidTranslation asciiLower paddedTitle headingSummary) =
        (spec_field_invalid asciiLower paddedTitle \<or> spec_field_invalid asciiLower headingSummary))
   \<and> \<not> ((\<not> isValidTranslation asciiLower cannotText headingSummary) =
        (spec_field_invalid asciiLower cannotText \<or> spec_field_invalid asciiLower headingSummary))"
  by code_simp

lemma isValidTranslation_rejects_code:
  "(\<not> isValidTranslation toLowerCase t s) =
     (field_invalid toLowerCase t \<or> field_invalid toLowerCase s)"
  unfolding isValidTranslation_def field_invalid_def
  by (auto simp: Let_def list_ex_iff)

lemma str_includes_sublist: "str_includes s sub \<longleftrightarrow> sublist sub s"
  by (induction s) (simp_all add: sublist_Cons_right)

lemma str_includes_trans:
  "str_includes s m \<Longrightarrow> str_includes m k \<Longrightarrow> str_includes s k"
  unfolding str_includes_sublist by (meson sublist_order.order_trans)

lemma indicator_holds_marker:
  "list_all (\<lambda>ind. list_ex (\<lambda>m. str_includes (asciiLower ind) m) claimMarkers) failureIndicators"
  by code_simp

lemma marker_is_indicator:
  "list_all (\<lambda>m. list_ex (\<lambda>ind. asciiLower ind = m) failureIndicators)
     (remove1 (ascii ''cannot'') claimMarkers)"
  by code_simp

text \<open>
  C8 (amended), for a \<open>toLowerCase\<close> that lowers the indicator literals of the code as
  it lowers ASCII letters. Validation rejects an attempt only if the translation or the
  summary is invalid, where a field is invalid when it is empty or shorter than 10
  characters after trimming surrounding white space, or when its lowered text contains
  one of the failure markers "unable to", "cannot", the Hebrew refusal phrases, "error",
  "failed". And it rejects every attempt in which the translation or the summary is
  invalid on a ground other than the marker "cannot". Nothing is stated for an attempt
  whose only defect is the marker "cannot".
\<close>

theorem isValidTranslation_rule:
  assumes low: "\<forall>m \<in> set failureIndicators. toLowerCase m = asciiLower m"
  shows "(\<not> isValidTranslation toLowerCase t s \<longrightarrow>
            field_invalid_trimmed toLowerCase t \<or> field_invalid_trimmed toLowerCase s)
       \<and> (field_invalid_besides_cannot toLowerCase t \<or> field_invalid_besides_cannot toLowerCase s \<longrightarrow>
            \<not> isValidTranslation toLowerCase t s)"
proof -
  have up: "field_invalid_trimmed toLowerCase f" if "field_invalid toLowerCase f" for f
  proof -
    from that consider "f = [] \<or> length (trim f) < 10"
      | ind where "ind \<in> set failureIndicators" "str_includes (toLowerCase f) (toLowerCase ind)"
      by (auto simp: field_invalid_def list_ex_iff)
    then show ?thesis
    proof cases
      case 1
      then show ?thesis by (auto simp: field_invalid_trimmed_def)
    next
      case 2
      then obtain m where "m \<in> set claimMarkers" "str_includes (asciiLower ind) m"
        using indicator_holds_marker by (auto simp: list_all_iff list_ex_iff)
      then have "m \<in> set claimMarkers" "str_includes (toLowerCase f) m"
        using 2 low str_includes_trans by auto
      then show ?thesis by (auto simp: field_invalid_trimmed_def list_ex_iff)
    qed
  qed
  have down: "field_invalid toLowerCase f" if "field_invalid_besides_cannot toLowerCase f" for f
  proof -
    from that consider "f = [] \<or> length (trim f) < 10"
      | m where "m \<in> set (remove1 (ascii ''cannot'') claimMarkers)"
          "str_includes (toLowerCase f) m"
      by (auto simp: field_invalid_besides_cannot_def list_ex_iff)
    then show ?thesis
    proof cases
      case 1
      then show ?thesis by (auto simp: field_invalid_def)
    next
      case 2
      then obtain ind where "ind \<in> set failureIndicators" "asciiLower ind = m"
        using marker_is_indicator by (auto simp: list_all_iff list_ex_iff)
      then have "ind \<in> set failureIndicators" "str_includes (toLowerCase f) (toLowerCase ind)"
        using 2 low by auto
      then show ?thesis by (auto simp: field_invalid_def list_ex_iff)
    qed
  qed
  show ?thesis using up down isValidTranslation_rejects_code [of toLowerCase t s] by blast
qed

theorem isValidTranslation_rule_witness:
  "field_invalid_besides_cannot asciiLower paddedTitle
   \<and> \<not> isValidTranslation asciiLower paddedTitle headingSummary
   \<and> \<not> field_invalid_trimmed asciiLower (ascii ''Text of the page.'')
   \<and> \<not> field_invalid_trimmed asciiLower headingSummary
   \<and> isValidTranslation asciiLower (ascii ''Text of the page.'') headingSummary"
proof -
  have inv: "field_invalid_besides_cannot asciiLower paddedTitle"
    by code_simp
  have fine: "\<not> field_invalid_trimmed asciiLower (ascii ''Text of the page.'')"
    "\<not> field_invalid_trimmed asciiLower headingSummary"
    by code_simp+
  have low: "\<forall>m \<in> set failureIndicators. asciiLower m = asciiLower m" by simp
  show ?thesis
    using inv fine isValidTranslation_rule [OF low, of paddedTitle headingSummary]
      isValidTranslation_rule [OF low, of "ascii ''Text of the page.''" headingSummary]
    by blast
qed


section \<open>Properties of the retry loop\<close>






lemma attemptPage_Some:
  "attemptPage lc out pn k = Some r \<Longrightarrow>
     pageNumber r = pn \<and> status r = OK \<and> translation r \<noteq> [] \<and> retryCount r = Some k"
  by (auto simp: attemptPage_def isValidTranslation_def split: attempt_outcome.splits if_splits)

lemma retryLoop_result:
  "retryLoop lc io pn mr a tr = (Inr r, tr') \<Longrightarrow>
     pageNumber r = pn \<and> (status r = OK \<and> translation r \<noteq> [] \<or> status r = FAILED)"
proof (induction lc io pn mr a tr rule: retryLoop.induct)
  case (1 lc io pn mr a tr)
  show ?case
  proof (cases "a \<le> mr")
    case False
    then have "r = exhaustedResult pn mr"
      using "1.prems" by (subst (asm) retryLoop.simps) simp
    then show ?thesis by (simp add: exhaustedResult_def)
  next
    case le: True
    show ?thesis
    proof (cases "attemptPage lc (io a) pn a")
      case (Some res)
      then have "r = res" using "1.prems" le by (subst (asm) retryLoop.simps) simp
      then show ?thesis using attemptPage_Some [OF Some] by simp
    next
      case None
      show ?thesis
      proof (cases "a + 1 \<le> mr")
        case True
        show ?thesis
        proof (cases "io a = HandlerError")
          case True
          then show ?thesis
            using "1.prems" le None \<open>a + 1 \<le> mr\<close> by (subst (asm) retryLoop.simps) simp
        next
          case False
          then have "retryLoop lc io pn mr (a + 1) (tr @ [Attempt a, Delay 3000]) = (Inr r, tr')"
            using "1.prems" le None True by (subst (asm) retryLoop.simps) simp
          then show ?thesis using "1.IH"(1) [OF le None True False] by simp
        qed
      next
        case False
        then have "retryLoop lc io pn mr (a + 1) (tr @ [Attempt a]) = (Inr r, tr')"
          using "1.prems" le None by (subst (asm) retryLoop.simps) simp
        then show ?thesis using "1.IH"(2) [OF le None False] by simp
      qed
    qed
  qed
qed

lemma processPage_result:
  "pageNumber (fst (processPage lc cl path pn prev chap mr)) = pn
   \<and> (status (fst (processPage lc cl path pn prev chap mr)) = OK
        \<and> translation (fst (processPage lc cl path pn prev chap mr)) \<noteq> []
      \<or> status (fst (processPage lc cl path pn prev chap mr)) = FAILED)"
proof (cases "retryLoop lc (cl path pn prev chap) pn mr 0 []")
  case (Pair x tr)
  show ?thesis
  proof (cases x)
    case (Inl err)
    then show ?thesis using Pair by (simp add: processPage_def criticalResult_def)
  next
    case (Inr r)
    then show ?thesis using Pair retryLoop_result [of lc "cl path pn prev chap" pn mr 0 "[]" r tr]
      by (simp add: processPage_def)
  qed
qed

text \<open>
  C10: \<open>processPage\<close> returns a result on every input (it is a total function whose
  retry loop terminates), and the status of the result is OK or FAILED, never RETRY;
  an exception that leaves the retry loop is turned by the outer handler into the
  critical-error result, whose status is FAILED and whose \<open>retryCount\<close> is 0.
\<close>

theorem processPage_total:
  "(status (fst (processPage lc cl imagePath pageNo previousContext chapterContext maxRetries)) = OK
    \<or> status (fst (processPage lc cl imagePath pageNo previousContext chapterContext maxRetries)) = FAILED)
   \<and> (\<forall>err tr. retryLoop lc (cl imagePath pageNo previousContext chapterContext)
                  pageNo maxRetries 0 [] = (Inl err, tr) \<longrightarrow>
         processPage lc cl imagePath pageNo previousContext chapterContext maxRetries =
           (criticalResult pageNo, tr))
   \<and> status (criticalResult pageNo) = FAILED
   \<and> retryCount (criticalResult pageNo) = Some 0"
  using processPage_result [of lc cl imagePath pageNo previousContext chapterContext maxRetries]
  by (auto simp: processPage_def criticalResult_def)

theorem processPage_total_witness:
  "retryLoop asciiLower (brokenHandler (ascii ''page_7.png'') 7 [] []) 7 3 0 [] =
     (Inl HandlerFailure, [Attempt 0])
   \<and> processPage asciiLower brokenHandler (ascii ''page_7.png'') 7 [] [] 3 =
       (criticalResult 7, [Attempt 0])
   \<and> status (criticalResult 7) = FAILED \<and> retryCount (criticalResult 7) = Some 0"
proof -
  have loop: "retryLoop asciiLower (brokenHandler (ascii ''page_7.png'') 7 [] []) 7 3 0 [] =
     (Inl HandlerFailure, [Attempt 0])"
    by (subst retryLoop.simps) (simp add: brokenHandler_def attemptPage_def)
  show ?thesis
    using loop processPage_total [where lc = asciiLower and cl = brokenHandler
        and imagePath = "ascii ''page_7.png''" and pageNo = 7 and previousContext = "[]"
        and chapterContext = "[]" and maxRetries = 3]
    by simp
qed


section \<open>Properties of the chunk summaries\<close>

lemma summarizeLoop_length:
  "length (summarizeLoop cl t cs i acc) = length acc + length cs"
  by (induction cs arbitrary: i acc) auto

lemma summarizeLoop_nth_old:
  "k < length acc \<Longrightarrow> summarizeLoop cl t cs i acc ! k = acc ! k"
  by (induction cs arbitrary: i acc) (auto simp: nth_append)

lemma summarizeLoop_nth:
  "k < length cs \<Longrightarrow>
     summarizeLoop cl t cs i acc ! (length acc + k) = summarizeChunk cl (cs ! k) (i + k) t"
proof (induction cs arbitrary: i acc k)
  case Nil
  then show ?case by simp
next
  case (Cons c cs)
  show ?case
  proof (cases k)
    case 0
    then show ?thesis by (simp add: summarizeLoop_nth_old)
  next
    case (Suc m)
    then have "m < length cs" using Cons.prems by simp
    from Cons.IH [OF this, where i = "Suc i" and acc = "acc @ [summarizeChunk cl c i t]"]
    show ?thesis using Suc by simp
  qed
qed

text \<open>
  C9: the summarization loop yields one summary per chunk, in order, the summary at index
  \<open>i\<close> being that of chunk \<open>i\<close>; for every chunk whose request is rejected the
  summary is the fixed Hebrew error text followed by the title of that chunk, and the
  chunks after it are summarized all the same.
\<close>

theorem summarizeChunks_failure:
  "length (summarizeChunks cl cs) = length cs
   \<and> (\<forall>i<length cs. summarizeChunks cl cs ! i = summarizeChunk cl (cs ! i) i (length cs))
   \<and> (\<forall>i<length cs. cl (cs ! i) i (length cs) = Rejected \<longrightarrow>
         summarizeChunks cl cs ! i = summaryError (title (cs ! i)))"
proof -
  have nth: "summarizeChunks cl cs ! i = summarizeChunk cl (cs ! i) i (length cs)"
    if "i < length cs" for i
    using summarizeLoop_nth [OF that, of cl "length cs" 0 "[]"] by (simp add: summarizeChunks_def)
  show ?thesis
    using nth by (simp add: summarizeChunks_def summarizeLoop_length summarizeChunk_def)
qed

theorem summarizeChunks_failure_witness:
  "failsFirst (twoChunks ! 0) 0 (length twoChunks) = Rejected
   \<and> length (summarizeChunks failsFirst twoChunks) = 2
   \<and> summarizeChunks failsFirst twoChunks ! 0 =
       [1513, 1490, 1497, 1488, 1492, 32, 1489, 1505, 1497, 1499, 1493, 1501, 32]
       @ ascii ''Chapter 1''
   \<and> summarizeChunks failsFirst twoChunks ! 1 = ascii ''A summary.''"
proof -
  note fact = summarizeChunks_failure [of failsFirst twoChunks]
  have len: "length twoChunks = 2" by (simp add: twoChunks_def)
  have r: "failsFirst (twoChunks ! 0) 0 (length twoChunks) = Rejected"
    by (simp add: failsFirst_def)
  have t0: "title (twoChunks ! 0) = ascii ''Chapter 1''" by (simp add: twoChunks_def)
  have second: "summarizeChunk failsFirst (twoChunks ! 1) 1 (length twoChunks) = ascii ''A summary.''"
    by (simp add: summarizeChunk_def failsFirst_def trim_def isWhiteSpace_def ascii_def)
  have c2: "summarizeChunks failsFirst twoChunks ! i =
              summarizeChunk failsFirst (twoChunks ! i) i (length twoChunks)"
    if "i < length twoChunks" for i
    using fact that by blast
  have c3: "summarizeChunks failsFirst twoChunks ! i = summaryError (title (twoChunks ! i))"
    if "i < length twoChunks" "failsFirst (twoChunks ! i) i (length twoChunks) = Rejected" for i
    using fact that by blast
  have "summarizeChunks failsFirst twoChunks ! 0 = summaryError (title (twoChunks ! 0))"
    using c3 [of 0] r len by simp
  moreover have "summarizeChunks failsFirst twoChunks ! 1 = ascii ''A summary.''"
    using c2 [of 1] second len by simp
  moreover have "length (summarizeChunks failsFirst twoChunks) = 2"
    using fact len by simp
  ultimately show ?thesis using r t0 by (simp add: summaryError_def)
qed

section \<open>Properties of the chunker\<close>

lemma chunkStep_skip: "status r \<noteq> OK \<Longrightarrow> chunkStep m st r = st"
  by (simp add: chunkStep_def)

lemma chunkStep_text: "status r = OK \<Longrightarrow> chunkText (currentChunk (chunkStep m st r)) \<noteq> []"
  by (simp add: chunkStep_def Let_def)

lemma chunkStep_pages:
  "status r = OK \<Longrightarrow> (chunkText (currentChunk st) = [] \<longrightarrow> pages (currentChunk st) = []) \<Longrightarrow>
     allPages (chunkStep m st r) = allPages st @ [pageNumber r]"
  by (simp add: chunkStep_def Let_def allPages_def)

lemma foldl_chunkStep:
  "(chunkText (currentChunk st) = [] \<longrightarrow> pages (currentChunk st) = []) \<Longrightarrow>
     allPages (foldl (chunkStep m) st rs) = allPages st @ okPages rs
     \<and> (chunkText (currentChunk (foldl (chunkStep m) st rs)) = [] \<longrightarrow>
          pages (currentChunk (foldl (chunkStep m) st rs)) = [])"
proof (induction rs arbitrary: st)
  case Nil
  then show ?case by (simp add: okPages_def)
next
  case (Cons r rs)
  show ?case
  proof (cases "status r = OK")
    case True
    have inv: "chunkText (currentChunk (chunkStep m st r)) = [] \<longrightarrow>
                 pages (currentChunk (chunkStep m st r)) = []"
      using chunkStep_text [OF True] by simp
    show ?thesis
      using Cons.IH [OF inv] chunkStep_pages [OF True Cons.prems] True
      by (simp add: okPages_def)
  next
    case False
    then show ?thesis using Cons.IH [OF Cons.prems] by (simp add: chunkStep_skip okPages_def)
  qed
qed

text \<open>
  C3: the pages lists of the chunks of \<open>createChunks\<close>, concatenated in chunk order,
  are the page numbers of the results with status OK, in their order, none left out and
  none twice.
\<close>

theorem createChunks_pages:
  "concat (map pages (createChunks rs maxChars)) =
     map pageNumber (filter (\<lambda>r. status r = OK) rs)"
proof -
  let ?st = "foldl (chunkStep maxChars) chunkerInit rs"
  have init: "chunkText (currentChunk chunkerInit) = [] \<longrightarrow> pages (currentChunk chunkerInit) = []"
    by (simp add: chunkerInit_def)
  have a: "allPages ?st = okPages rs"
    using foldl_chunkStep [OF init, of maxChars rs] by (simp add: allPages_def chunkerInit_def)
  have b: "chunkText (currentChunk ?st) = [] \<longrightarrow> pages (currentChunk ?st) = []"
    using foldl_chunkStep [OF init, of maxChars rs] by simp
  have "concat (map pages (finishChunks ?st)) = allPages ?st"
    using b by (simp add: finishChunks_def allPages_def)
  then show ?thesis using a by (simp add: createChunks_def okPages_def)
qed

text \<open>
  C2 fails on the code: two OK pages without titles, of 5000 and 4998 characters, end up
  in one chunk whose text has 10002 characters with the limit at 10000. The check before
  adding compares \<open>5002 + 4998\<close> with the limit and leaves out the two-character
  separator appended after the page.
\<close>

theorem createChunks_over_limit:
  "map pages (createChunks limitPages 10000) = [[1, 2]]
   \<and> map (\<lambda>c. length (chunkText c)) (createChunks limitPages 10000) = [10002]"
  by (simp add: createChunks_def finishChunks_def chunkStep_def chunkerInit_def limitPages_def
        plainPage_def orEmpty_def generalContent_def Let_def)

lemma chunkStep_inv: "chunkerInv m st \<Longrightarrow> chunkerInv m (chunkStep m st r)"
  by (cases "status r = OK")
     (auto simp: chunkerInv_def withinLimit_def chunkStep_def Let_def)

lemma foldl_chunkStep_inv: "chunkerInv m st \<Longrightarrow> chunkerInv m (foldl (chunkStep m) st rs)"
  by (induction rs arbitrary: st) (simp_all add: chunkStep_inv)

lemma createChunks_bound:
  "c \<in> set (createChunks rs m) \<Longrightarrow> 2 \<le> length (pages c) \<Longrightarrow> length (chunkText c) \<le> m + 2"
proof -
  have "chunkerInv m chunkerInit" by (simp add: chunkerInv_def chunkerInit_def withinLimit_def)
  then have "chunkerInv m (foldl (chunkStep m) chunkerInit rs)" by (rule foldl_chunkStep_inv)
  then show "c \<in> set (createChunks rs m) \<Longrightarrow> 2 \<le> length (pages c) \<Longrightarrow> length (chunkText c) \<le> m + 2"
    by (auto simp: createChunks_def finishChunks_def chunkerInv_def withinLimit_def split: if_splits)
qed


section \<open>Properties of the page sequencer\<close>

lemma lookup_append: "j < length rs \<Longrightarrow> lookup (rs @ ex) j = lookup rs j"
  by (simp add: lookup_def nth_append)

lemma chapterScan_append:
  "n \<le> length rs \<Longrightarrow> chapterScan (rs @ ex) n ctx = chapterScan rs n ctx"
  by (induction n arbitrary: ctx) (simp_all add: lookup_append Let_def split: option.splits)

lemma chapterScan_total: "n \<le> length rs \<Longrightarrow> \<exists>c. chapterScan rs n ctx = Inr c"
  by (induction n arbitrary: ctx) (simp_all add: lookup_def Let_def)

lemma pageContexts_append:
  "k \<le> length rs \<Longrightarrow> pageContexts (rs @ ex) k = pageContexts rs k"
proof (cases k)
  case 0
  then show ?thesis by (simp add: pageContexts_def)
next
  case (Suc j)
  assume "k \<le> length rs"
  then have "j < length rs" using Suc by simp
  then show ?thesis using Suc \<open>k \<le> length rs\<close>
    by (simp add: pageContexts_def lookup_append chapterScan_append
          del: chapterScan.simps split: option.splits)
qed

lemma pageContexts_Inr:
  "\<exists>c. pageContexts rs i =
     Inr (if 0 < i \<and> i \<le> length rs \<and> status (rs ! (i - 1)) = OK
          then slice_last 200 (translation (rs ! (i - 1))) else [], c)"
proof (cases "0 < i \<and> i \<le> length rs \<and> status (rs ! (i - 1)) = OK")
  case True
  then obtain c where "chapterScan rs i [] = Inr c" using chapterScan_total by blast
  moreover have "i - 1 < length rs" using True by arith
  ultimately show ?thesis using True by (simp add: pageContexts_def lookup_def)
next
  case False
  then show ?thesis by (auto simp: pageContexts_def lookup_def)
qed

lemma translateStep_inv:
  assumes "sequencerInv st i"
  shows "sequencerInv (translateStep lc cl path i st) (Suc i)"
proof -
  obtain p c where ctx: "pageContexts (results st) i = Inr (p, c)"
    using pageContexts_Inr [of "results st" i] by blast
  let ?r = "fst (processPage lc cl path (Suc i) p c 3)"
  have step: "translateStep lc cl path i st =
                st \<lparr> results := results st @ [?r], calls := calls st @ [(Suc i, p, c)] \<rparr>"
    using ctx by (simp add: translateStep_def)
  have len: "length (results st) = i" "length (calls st) = i"
    using assms by (simp_all add: sequencerInv_def)
  have r: "pageNumber ?r = Suc i" "status ?r = OK \<longrightarrow> translation ?r \<noteq> []"
    using processPage_result [of lc cl path "Suc i" p c 3] by auto
  have old: "pageNumber (results st ! k) = Suc k
               \<and> (status (results st ! k) = OK \<longrightarrow> translation (results st ! k) \<noteq> [])
               \<and> fst (calls st ! k) = Suc k
               \<and> pageContexts (results st) k = Inr (snd (calls st ! k))" if "k < i" for k
    using assms that by (simp add: sequencerInv_def)
  have stable: "pageContexts (results st @ [?r]) k = pageContexts (results st) k" if "k \<le> i" for k
    using that len by (simp add: pageContexts_append)
  show ?thesis
    unfolding sequencerInv_def step
  proof (intro conjI allI impI)
    fix k assume "k < Suc i"
    then consider "k < i" | "k = i" by linarith
    note cases = this
    show "pageNumber (results (st\<lparr>results := results st @ [?r], calls := calls st @ [(Suc i, p, c)]\<rparr>) ! k) = Suc k"
      using cases old r len by cases (simp_all add: nth_append)
    show "translation (results (st\<lparr>results := results st @ [?r], calls := calls st @ [(Suc i, p, c)]\<rparr>) ! k) \<noteq> []"
      if "status (results (st\<lparr>results := results st @ [?r], calls := calls st @ [(Suc i, p, c)]\<rparr>) ! k) = OK"
      using cases that old r len by cases (simp_all add: nth_append)
    show "fst (calls (st\<lparr>results := results st @ [?r], calls := calls st @ [(Suc i, p, c)]\<rparr>) ! k) = Suc k"
      using cases old len by cases (simp_all add: nth_append)
    show "pageContexts (results (st\<lparr>results := results st @ [?r], calls := calls st @ [(Suc i, p, c)]\<rparr>)) k =
            Inr (snd (calls (st\<lparr>results := results st @ [?r], calls := calls st @ [(Suc i, p, c)]\<rparr>) ! k))"
      using cases old len ctx stable [of k] by cases (simp_all add: nth_append)
  qed (simp_all add: len)
qed

lemma translateLoop_inv:
  "sequencerInv st i \<Longrightarrow>
     sequencerInv (translateLoop lc cl paths i st) (i + length paths)"
proof (induction paths arbitrary: i st)
  case Nil
  then show ?case by simp
next
  case (Cons path paths)
  from Cons.IH [OF translateStep_inv [OF Cons.prems]] show ?case by simp
qed

lemma translatePages_inv:
  "sequencerInv (translatePages lc cl paths) (length paths)"
proof -
  have "sequencerInv \<lparr> results = [], calls = [] \<rparr> 0" by (simp add: sequencerInv_def)
  from translateLoop_inv [OF this, of lc cl paths] show ?thesis by (simp add: translatePages_def)
qed

text \<open>
  C4: a run of the sequencer over \<open>N\<close> page images yields exactly \<open>N\<close> results whose
  page numbers are \<open>1, \<dots>, N\<close> in this order, whatever the client answers and however
  many pages fail.
\<close>

theorem translatePages_pageNumbers:
  "length (results (translatePages toLowerCase cl imagePaths)) = length imagePaths
   \<and> map pageNumber (results (translatePages toLowerCase cl imagePaths)) =
       [1..<Suc (length imagePaths)]"
proof -
  note inv = translatePages_inv [of toLowerCase cl imagePaths, unfolded sequencerInv_def]
  have len: "length (results (translatePages toLowerCase cl imagePaths)) = length imagePaths"
    using inv by simp
  have "map pageNumber (results (translatePages toLowerCase cl imagePaths)) =
          [1..<Suc (length imagePaths)]"
  proof (rule nth_equalityI)
    show "length (map pageNumber (results (translatePages toLowerCase cl imagePaths))) =
            length [1..<Suc (length imagePaths)]" using len by (simp del: upt_Suc)
  next
    fix k assume "k < length (map pageNumber (results (translatePages toLowerCase cl imagePaths)))"
    then have k: "k < length imagePaths" using len by simp
    then have "pageNumber (results (translatePages toLowerCase cl imagePaths) ! k) = Suc k"
      using inv by simp
    then show "map pageNumber (results (translatePages toLowerCase cl imagePaths)) ! k =
                 [1..<Suc (length imagePaths)] ! k"
      using k len by (simp add: nth_upt del: upt_Suc)
  qed
  then show ?thesis using len by simp
qed




lemma example_run:
  "translatePages asciiLower exampleClient examplePaths =
     \<lparr> results = [okResult 1 (ascii ''A'') [], okResult 2 [] [],
                  okResult 3 [] (ascii ''B''), okResult 4 [] []],
       calls = [(1, [], []),
                (2, ascii ''Text of the page.'', ascii ''A''),
                (3, ascii ''Text of the page.'', ascii ''A''),
                (4, ascii ''Text of the page.'', ascii ''B'')] \<rparr>"
  by code_simp

text \<open>
  C1 fails on the code at the example of the claim itself: with chapter title \<open>A\<close> on
  page 1, no title on page 2 and section title \<open>B\<close> on page 3, all three pages OK, the
  chapter context passed for page 4 is \<open>B\<close>, not \<open>A\<close>. The scan takes the section
  of page 3 as context, and a chapter title is only taken while the context is empty.
\<close>

theorem chapterContext_section_before_chapter:
  "map status (results (translatePages asciiLower exampleClient examplePaths)) = [OK, OK, OK, OK]
   \<and> map (\<lambda>r. orEmpty (chapterTitle r))
        (results (translatePages asciiLower exampleClient examplePaths)) = [ascii ''A'', [], [], []]
   \<and> map (\<lambda>r. orEmpty (sectionTitle r))
        (results (translatePages asciiLower exampleClient examplePaths)) = [[], [], ascii ''B'', []]
   \<and> fst (calls (translatePages asciiLower exampleClient examplePaths) ! 3) = 4
   \<and> snd (snd (calls (translatePages asciiLower exampleClient examplePaths) ! 3)) = ascii ''B''
   \<and> snd (snd (calls (translatePages asciiLower exampleClient examplePaths) ! 3)) \<noteq> ascii ''A''"
  by (simp add: example_run okResult_def orEmpty_def ascii_def)


section \<open>Properties of the document assembly\<close>















end
